theory Spec2Isabelle
  imports Main "HOL-Library.Multiset" "HOL-Library.Char_ord" "HOL-Library.List_Lexorder"
    "HOL-Library.Product_Lexorder"
begin

section \<open>Errors\<close>

text \<open>
  The Python exceptions that \<open>nanshe_workflow/data.py\<close> raises or lets through.
  \<open>OSError\<close> carries its \<open>errno\<close>. The model follows Python 3, where \<open>IOError\<close>
  is another name of \<open>OSError\<close>, so that \<open>except IOError\<close> catches what \<open>os.remove\<close>
  and \<open>shutil.rmtree\<close> raise.
\<close>

datatype errno = ENOENT | EISDIR | ENOTDIR | EEXIST | EBUSY | EINVAL | ENOTEMPTY

datatype pyerr =
    TypeError
  | ValueError
  | KeyError
  | IndexError
  | NotImplementedError
  | OSError errno

section \<open>Lazy dataset handles\<close>

text \<open>
  \<open>LazyHDF5Dataset\<close> and \<open>LazyZarrDataset\<close> are objects with the fields \<open>filename\<close>,
  \<open>datasetname\<close>, \<open>shape\<close>, \<open>dtype\<close> and \<open>size\<close>. Objects live in a heap (a list,
  an object's reference is its index), so that a handle built by \<open>astype\<close> and the
  handle it was built from are two objects, and a write to one can be told from a
  write to the other. A backend is what opening \<open>filename\<close> and looking
  \<open>datasetname\<close> up gives: the shape and dtype of the dataset, or the error raised.
\<close>

record 'd lazy_dataset =
  filename :: string
  datasetname :: string
  shape :: "nat list"
  dtype :: 'd
  size :: nat

type_synonym 'd heap = "'d lazy_dataset list"

type_synonym 'd backend = "string \<Rightarrow> string \<Rightarrow> pyerr + (nat list \<times> 'd)"

text \<open>
  \<open>__init__\<close> of either class: store the two names, open the file, read \<open>shape\<close> and
  \<open>dtype\<close> of the dataset, compute \<open>size = numpy.prod(shape)\<close>. When opening raises,
  no object is returned. The two classes differ in the backend they open
  (\<open>h5py.File\<close> or \<open>open_zarr\<close>) and in nothing else.
\<close>

definition lazy_init :: "'d backend \<Rightarrow> 'd heap \<Rightarrow> string \<Rightarrow> string \<Rightarrow> pyerr + (nat \<times> 'd heap)" where
  "lazy_init backend h fn dn =
     (case backend fn dn of
        Inl e \<Rightarrow> Inl e
      | Inr (shp, dt) \<Rightarrow>
          Inr (length h,
               h @ [\<lparr>filename = fn, datasetname = dn, shape = shp, dtype = dt,
                     size = prod_list shp\<rparr>]))"

definition LazyHDF5Dataset :: "'d backend \<Rightarrow> 'd heap \<Rightarrow> string \<Rightarrow> string \<Rightarrow> pyerr + (nat \<times> 'd heap)" where
  "LazyHDF5Dataset h5py_File = lazy_init h5py_File"

definition LazyZarrDataset :: "'d backend \<Rightarrow> 'd heap \<Rightarrow> string \<Rightarrow> string \<Rightarrow> pyerr + (nat \<times> 'd heap)" where
  "LazyZarrDataset open_zarr = lazy_init open_zarr"

text \<open>
  \<open>astype\<close> is a context manager. Entering it builds a new handle from the
  \<open>filename\<close> and \<open>datasetname\<close> of \<open>self\<close>, overwrites the new handle's \<open>dtype\<close> with
  \<open>numpy.dtype(dtype)\<close> and yields it; leaving it runs the code after the \<open>yield\<close>,
  of which there is none. \<open>numpy_dtype\<close> stands for \<open>numpy.dtype\<close>, which turns a dtype
  specifier into a dtype.
\<close>

definition astype_enter ::
  "('d backend \<Rightarrow> 'd heap \<Rightarrow> string \<Rightarrow> string \<Rightarrow> pyerr + (nat \<times> 'd heap)) \<Rightarrow>
   ('s \<Rightarrow> 'd) \<Rightarrow> 'd backend \<Rightarrow> 'd heap \<Rightarrow> nat \<Rightarrow> 's \<Rightarrow> pyerr + (nat \<times> 'd heap)" where
  "astype_enter cls numpy_dtype backend h self dt =
     (case cls backend h (filename (h ! self)) (datasetname (h ! self)) of
        Inl e \<Rightarrow> Inl e
      | Inr (self_astype, h') \<Rightarrow>
          Inr (self_astype, h'[self_astype := (h' ! self_astype)\<lparr>dtype := numpy_dtype dt\<rparr>]))"

definition astype_exit :: "'d heap \<Rightarrow> 'd heap" where
  "astype_exit h = h"

definition hdf5_astype ::
  "('s \<Rightarrow> 'd) \<Rightarrow> 'd backend \<Rightarrow> 'd heap \<Rightarrow> nat \<Rightarrow> 's \<Rightarrow> pyerr + (nat \<times> 'd heap)" where
  "hdf5_astype = astype_enter LazyHDF5Dataset"

definition zarr_astype ::
  "('s \<Rightarrow> 'd) \<Rightarrow> 'd backend \<Rightarrow> 'd heap \<Rightarrow> nat \<Rightarrow> 's \<Rightarrow> pyerr + (nat \<times> 'd heap)" where
  "zarr_astype = astype_enter LazyZarrDataset"

text \<open>A scope entered and left again: the view and the heap after the scope.\<close>

definition astype_scope ::
  "(('s \<Rightarrow> 'd) \<Rightarrow> 'd backend \<Rightarrow> 'd heap \<Rightarrow> nat \<Rightarrow> 's \<Rightarrow> pyerr + (nat \<times> 'd heap)) \<Rightarrow>
   ('s \<Rightarrow> 'd) \<Rightarrow> 'd backend \<Rightarrow> 'd heap \<Rightarrow> nat \<Rightarrow> 's \<Rightarrow> pyerr + (nat \<times> 'd heap)" where
  "astype_scope enter numpy_dtype backend h self dt =
     (case enter numpy_dtype backend h self dt of
        Inl e \<Rightarrow> Inl e
      | Inr (v, h') \<Rightarrow> Inr (v, astype_exit h'))"

definition view_ok :: "('s \<Rightarrow> 'd) \<Rightarrow> 'd heap \<Rightarrow> nat \<Rightarrow> 's \<Rightarrow> pyerr + (nat \<times> 'd heap) \<Rightarrow> bool" where
  "view_ok numpy_dtype h self dt r =
     (case r of
        Inl e \<Rightarrow> False
      | Inr (v, h') \<Rightarrow>
          v \<noteq> self \<and> v < length h' \<and> length h \<le> v \<and>
          dtype (h' ! v) = numpy_dtype dt \<and>
          filename (h' ! v) = filename (h ! self) \<and>
          datasetname (h' ! v) = datasetname (h ! self) \<and>
          h' ! self = h ! self \<and>
          take (length h) h' = h)"

section \<open>The filesystem\<close>

text \<open>
  A filesystem is a tree. A directory lists its entries in the order \<open>scandir\<close>
  returns them; an entry that is neither a regular file nor a directory (a FIFO, a
  socket, a device) is \<open>Other\<close>. Symbolic links are not modelled. A path is what
  \<open>os.path\<close> makes of a path string: absolute or relative, and its components
  (normalised: no empty component, no \<open>.\<close>, no \<open>..\<close>).
\<close>

datatype node = File string | Dir "(string \<times> node) list" | Other

datatype path = Abs "string list" | Rel "string list"

record filesys =
  root :: node
  cwd :: "string list"

text \<open>
  \<open>os.path.join(a, b)\<close>: when \<open>b\<close> is absolute, \<open>a\<close> is thrown away and the result
  is \<open>b\<close>; otherwise the components of \<open>b\<close> are appended to \<open>a\<close>.
\<close>

fun os_path_join :: "path \<Rightarrow> path \<Rightarrow> path" where
  "os_path_join a (Abs q) = Abs q"
| "os_path_join (Abs p) (Rel q) = Abs (p @ q)"
| "os_path_join (Rel p) (Rel q) = Rel (p @ q)"

fun resolve :: "filesys \<Rightarrow> path \<Rightarrow> string list" where
  "resolve st (Abs p) = p"
| "resolve st (Rel q) = cwd st @ q"

definition os_path_abspath :: "filesys \<Rightarrow> path \<Rightarrow> path" where
  "os_path_abspath st p = Abs (resolve st p)"

fun lookup :: "node \<Rightarrow> string list \<Rightarrow> node option" where
  "lookup n [] = Some n"
| "lookup (Dir cs) (c # p) = (case map_of cs c of None \<Rightarrow> None | Some m \<Rightarrow> lookup m p)"
| "lookup n (c # p) = None"

definition stat :: "filesys \<Rightarrow> path \<Rightarrow> node option" where
  "stat st p = lookup (root st) (resolve st p)"

definition os_path_exists :: "filesys \<Rightarrow> path \<Rightarrow> bool" where
  "os_path_exists st p = (case stat st p of None \<Rightarrow> False | Some n \<Rightarrow> True)"

definition os_path_isfile :: "filesys \<Rightarrow> path \<Rightarrow> bool" where
  "os_path_isfile st p = (case stat st p of Some (File c) \<Rightarrow> True | _ \<Rightarrow> False)"

definition os_path_isdir :: "filesys \<Rightarrow> path \<Rightarrow> bool" where
  "os_path_isdir st p = (case stat st p of Some (Dir cs) \<Rightarrow> True | _ \<Rightarrow> False)"

text \<open>
  \<open>os.remove\<close> unlinks anything but a directory, \<open>shutil.rmtree\<close> removes a
  directory with all below it; both raise \<open>OSError\<close> with \<open>ENOENT\<close> on a path that
  does not exist. \<open>scandir\<close> lists a directory.
\<close>

fun delete_at :: "node \<Rightarrow> string list \<Rightarrow> node" where
  "delete_at (Dir cs) [c] = Dir (filter (\<lambda>e. fst e \<noteq> c) cs)"
| "delete_at (Dir cs) (c # p) =
     Dir (map (\<lambda>e. if fst e = c then (fst e, delete_at (snd e) p) else e) cs)"
| "delete_at n p = n"

definition os_remove :: "filesys \<Rightarrow> path \<Rightarrow> pyerr + filesys" where
  "os_remove st p =
     (case stat st p of
        None \<Rightarrow> Inl (OSError ENOENT)
      | Some (Dir cs) \<Rightarrow> Inl (OSError EISDIR)
      | Some n \<Rightarrow> Inr (st\<lparr>root := delete_at (root st) (resolve st p)\<rparr>))"

definition shutil_rmtree :: "filesys \<Rightarrow> path \<Rightarrow> pyerr + filesys" where
  "shutil_rmtree st p =
     (case stat st p of
        None \<Rightarrow> Inl (OSError ENOENT)
      | Some (Dir cs) \<Rightarrow>
          if resolve st p = [] then Inl (OSError EBUSY)
          else Inr (st\<lparr>root := delete_at (root st) (resolve st p)\<rparr>)
      | Some n \<Rightarrow> Inl (OSError ENOTDIR))"

definition scandir :: "filesys \<Rightarrow> path \<Rightarrow> pyerr + (string \<times> node) list" where
  "scandir st p =
     (case stat st p of
        None \<Rightarrow> Inl (OSError ENOENT)
      | Some (Dir cs) \<Rightarrow> Inr cs
      | Some n \<Rightarrow> Inl (OSError ENOTDIR))"

fun is_file :: "string \<times> node \<Rightarrow> bool" where
  "is_file (name, File c) = True"
| "is_file (name, n) = False"

fun is_dir :: "string \<times> node \<Rightarrow> bool" where
  "is_dir (name, Dir cs) = True"
| "is_dir (name, n) = False"

definition entry_path :: "path \<Rightarrow> string \<times> node \<Rightarrow> path" where
  "entry_path dname pobj = os_path_join dname (Rel [fst pobj])"

section \<open>Deletion tasks\<close>

text \<open>
  A \<open>dask.delayed\<close> call builds a node of a task graph and runs nothing: the node
  holds the function and its arguments, and an argument that is itself a delayed
  node is a dependency, computed before the function is called.
\<close>

datatype delayed =
    Delayed_rm_file path
  | Delayed_rm_dir path "delayed list"
  | Delayed_io_remove delayed

text \<open>
  The loop \<open>for pobj in scandir.scandir(dname)\<close> of \<open>_int_dask_rm_tree\<close>: the body
  appends to \<open>deps\<close>, and an exception in the body ends the loop.
\<close>

fun for_each :: "('e \<Rightarrow> pyerr + 'd list) \<Rightarrow> 'e list \<Rightarrow> 'd list \<Rightarrow> pyerr + 'd list" where
  "for_each body [] deps = Inr deps"
| "for_each body (e # es) deps =
     (case body e of Inl x \<Rightarrow> Inl x | Inr new \<Rightarrow> for_each body es (deps @ new))"

lemma for_each_cong [fundef_cong]:
  "es = es' \<Longrightarrow> (\<And>e. e \<in> set es' \<Longrightarrow> body e = body' e) \<Longrightarrow> deps = deps'
   \<Longrightarrow> for_each body es deps = for_each body' es' deps'"
  by (induction es' arbitrary: es deps deps') (auto split: sum.splits)

text \<open>
  \<open>_int_dask_rm_tree\<close> calls itself on the path of every subdirectory. It terminates
  because the tree below the path gets smaller.
\<close>

fun node_size :: "node \<Rightarrow> nat" where
  "node_size (Dir cs) = Suc (sum_list (map (\<lambda>e. node_size (snd e)) cs))"
| "node_size n = 1"

definition size_at :: "filesys \<Rightarrow> path \<Rightarrow> nat" where
  "size_at st p = (case stat st p of None \<Rightarrow> 0 | Some n \<Rightarrow> node_size n)"

lemma lookup_append:
  "lookup n (p @ q) = (case lookup n p of None \<Rightarrow> None | Some m \<Rightarrow> lookup m q)"
  by (induction n p rule: lookup.induct) (auto split: option.splits)

lemma resolve_entry_path: "resolve st (entry_path d pobj) = resolve st d @ [fst pobj]"
  by (cases d) (simp_all add: entry_path_def)

lemma node_size_member: "e \<in> set cs \<Longrightarrow> node_size (snd e) < node_size (Dir cs)"
  by (induction cs) auto

lemma child_smaller:
  assumes "scandir st d = Inr es" and "pobj \<in> set es"
  shows "size_at st (entry_path d pobj) < size_at st d"
proof -
  from assms(1) have d: "stat st d = Some (Dir es)"
    by (auto simp: scandir_def split: option.splits node.splits)
  from assms(2) obtain m where m: "map_of es (fst pobj) = Some m"
    by (cases "map_of es (fst pobj)") (auto simp: map_of_eq_None_iff)
  then have "(fst pobj, m) \<in> set es" by (rule map_of_SomeD)
  then have "node_size m < node_size (Dir es)" using node_size_member by fastforce
  moreover have "stat st (entry_path d pobj) = lookup m []"
    using d m by (simp add: stat_def resolve_entry_path lookup_append)
  ultimately show ?thesis using d by (simp add: size_at_def)
qed

function int_dask_rm_tree :: "filesys \<Rightarrow> path \<Rightarrow> pyerr + delayed list" where
  "int_dask_rm_tree st dname =
     (case scandir st dname of
        Inl x \<Rightarrow> Inl x
      | Inr es \<Rightarrow>
          for_each (\<lambda>pobj.
            (case (if is_dir pobj
                   then (case int_dask_rm_tree st (entry_path dname pobj) of
                           Inl x \<Rightarrow> Inl x
                         | Inr sub \<Rightarrow> Inr [Delayed_rm_dir (entry_path dname pobj) sub])
                   else Inr []) of
               Inl x \<Rightarrow> Inl x
             | Inr ds \<Rightarrow>
                 Inr ((if is_file pobj then [Delayed_rm_file (entry_path dname pobj)] else [])
                      @ ds)))
            es [])"
  by pat_completeness auto
termination
proof (relation "measure (\<lambda>(st, p). size_at st p)")
  show "wf (measure (\<lambda>(st, p). size_at st p))" by simp
next
  fix st dname es pobj
  assume "scandir st dname = Inr es" "pobj \<in> set es" "is_dir pobj"
  then show "((st, entry_path dname pobj), (st, dname)) \<in> measure (\<lambda>(st, p). size_at st p)"
    by (simp add: child_smaller)
qed


definition dask_rm_tree :: "filesys \<Rightarrow> path \<Rightarrow> pyerr + delayed" where
  "dask_rm_tree st dirname =
     (let dirname = os_path_abspath st dirname in
      case int_dask_rm_tree st dirname of
        Inl x \<Rightarrow> Inl x
      | Inr deps \<Rightarrow> Inr (Delayed_rm_dir dirname deps))"

text \<open>The functions the tasks run, and \<open>io_remove\<close>.\<close>

definition io_remove :: "filesys \<Rightarrow> path \<Rightarrow> pyerr + filesys" where
  "io_remove st name =
     (if \<not> os_path_exists st name then Inr st
      else if os_path_isfile st name then os_remove st name
      else if os_path_isdir st name then shutil_rmtree st name
      else Inl ValueError)"

definition dask_rm_file :: "filesys \<Rightarrow> path \<Rightarrow> pyerr + (path \<times> filesys)" where
  "dask_rm_file st fname =
     (case os_remove st fname of
        Inr st' \<Rightarrow> Inr (fname, st')
      | Inl (OSError e) \<Rightarrow> if e \<noteq> ENOENT then Inl (OSError e) else Inr (fname, st)
      | Inl x \<Rightarrow> Inl x)"

definition dask_rm_dir :: "filesys \<Rightarrow> path \<Rightarrow> path option list \<Rightarrow> pyerr + (path \<times> filesys)" where
  "dask_rm_dir st dname deps =
     (case shutil_rmtree st dname of
        Inr st' \<Rightarrow> Inr (dname, st')
      | Inl (OSError e) \<Rightarrow> if e \<noteq> ENOENT then Inl (OSError e) else Inr (dname, st)
      | Inl x \<Rightarrow> Inl x)"

text \<open>
  Computing a task: its dependencies first (here in the order of the argument list,
  one of the orders dask may choose), then the function itself. The removal tasks
  return their path, \<open>io_remove\<close> returns \<open>None\<close>.
\<close>

fun compute :: "filesys \<Rightarrow> delayed \<Rightarrow> pyerr + (path option \<times> filesys)"
  and compute_args :: "filesys \<Rightarrow> delayed list \<Rightarrow> pyerr + (path option list \<times> filesys)" where
  "compute st (Delayed_rm_file fname) =
     (case dask_rm_file st fname of Inl x \<Rightarrow> Inl x | Inr (r, st') \<Rightarrow> Inr (Some r, st'))"
| "compute st (Delayed_rm_dir dname deps) =
     (case compute_args st deps of
        Inl x \<Rightarrow> Inl x
      | Inr (vs, st') \<Rightarrow>
          (case dask_rm_dir st' dname vs of Inl x \<Rightarrow> Inl x | Inr (r, st'') \<Rightarrow> Inr (Some r, st'')))"
| "compute st (Delayed_io_remove arg) =
     (case compute st arg of
        Inl x \<Rightarrow> Inl x
      | Inr (None, st') \<Rightarrow> Inl TypeError
      | Inr (Some name, st') \<Rightarrow>
          (case io_remove st' name of Inl x \<Rightarrow> Inl x | Inr st'' \<Rightarrow> Inr (None, st'')))"
| "compute_args st [] = Inr ([], st)"
| "compute_args st (d # ds) =
     (case compute st d of
        Inl x \<Rightarrow> Inl x
      | Inr (v, st') \<Rightarrow>
          (case compute_args st' ds of Inl x \<Rightarrow> Inl x | Inr (vs, st'') \<Rightarrow> Inr (v # vs, st'')))"

section \<open>Asynchronous removal and the directory store\<close>

text \<open>
  \<open>os.rename\<close>: renaming a path onto itself changes nothing; otherwise the node
  moves, with the errors POSIX gives.
\<close>

fun insert_at :: "node \<Rightarrow> string list \<Rightarrow> node \<Rightarrow> node" where
  "insert_at (Dir cs) [c] new = Dir (filter (\<lambda>e. fst e \<noteq> c) cs @ [(c, new)])"
| "insert_at (Dir cs) (c # p) new =
     Dir (map (\<lambda>e. if fst e = c then (fst e, insert_at (snd e) p new) else e) cs)"
| "insert_at n p new = n"

definition os_rename :: "filesys \<Rightarrow> path \<Rightarrow> path \<Rightarrow> pyerr + filesys" where
  "os_rename st src dst =
     (let s = resolve st src; d = resolve st dst in
      case lookup (root st) s of
        None \<Rightarrow> Inl (OSError ENOENT)
      | Some n \<Rightarrow>
          if s = d then Inr st
          else if s = [] \<or> d = [] then Inl (OSError EBUSY)
          else if take (length s) d = s then Inl (OSError EINVAL)
          else (case lookup (root st) (butlast d) of
                  None \<Rightarrow> Inl (OSError ENOENT)
                | Some (Dir cs) \<Rightarrow>
                    (case (n, lookup (root st) d) of
                       (Dir a, Some (Dir (b # bs))) \<Rightarrow> Inl (OSError ENOTEMPTY)
                     | (Dir a, Some (File c)) \<Rightarrow> Inl (OSError ENOTDIR)
                     | (Dir a, Some Other) \<Rightarrow> Inl (OSError ENOTDIR)
                     | (File c, Some (Dir b)) \<Rightarrow> Inl (OSError EISDIR)
                     | (Other, Some (Dir b)) \<Rightarrow> Inl (OSError EISDIR)
                     | _ \<Rightarrow> Inr (st\<lparr>root := insert_at (delete_at (root st) s) d n\<rparr>))
                | Some m \<Rightarrow> Inl (OSError ENOTDIR)))"

text \<open>
  \<open>os.path.basename\<close>, the first component of \<open>os.path.splitext\<close> (the name up to
  its last dot, when a character other than a dot stands before that dot), and
  \<open>tempfile.mkdtemp(prefix=...)\<close>, which creates a new directory under the temporary
  directory \<open>tempdir\<close>; \<open>rnd\<close> is the random part of its name.
\<close>

definition os_path_basename :: "filesys \<Rightarrow> path \<Rightarrow> string" where
  "os_path_basename st p = (case resolve st p of [] \<Rightarrow> [] | c # cs \<Rightarrow> last (c # cs))"

definition splitext_root :: "string \<Rightarrow> string" where
  "splitext_root p =
     (let stem = rev (tl (dropWhile (\<lambda>c. c \<noteq> CHR ''.'') (rev p))) in
      if CHR ''.'' \<in> set p \<and> list_ex (\<lambda>c. c \<noteq> CHR ''.'') stem then stem else p)"

definition tempfile_mkdtemp :: "string list \<Rightarrow> string \<Rightarrow> filesys \<Rightarrow> string \<Rightarrow> pyerr + (path \<times> filesys)" where
  "tempfile_mkdtemp tempdir rnd st prefix =
     (let comps = tempdir @ [prefix @ rnd] in
      case lookup (root st) tempdir of
        None \<Rightarrow> Inl (OSError ENOENT)
      | Some (Dir cs) \<Rightarrow>
          if lookup (root st) comps \<noteq> None then Inl (OSError EEXIST)
          else Inr (Abs comps, st\<lparr>root := insert_at (root st) comps (Dir [])\<rparr>)
      | Some n \<Rightarrow> Inl (OSError ENOTDIR))"

text \<open>
  \<open>dask_io_remove\<close> with \<open>executor=None\<close>, as \<open>DistributedDirectoryStore\<close> calls it.
  The temporary directory is made and the rename done when the function is called;
  the task graph is scanned then too, and only the removals are delayed.
\<close>

definition dask_io_remove ::
  "string list \<Rightarrow> string \<Rightarrow> filesys \<Rightarrow> path \<Rightarrow> pyerr + (delayed \<times> filesys)" where
  "dask_io_remove tempdir rnd st name =
     (let name = os_path_abspath st name;
          tmp_dir = ''tmp_nanshe_workflow_'' @ splitext_root (os_path_basename st name) @ ''_''
      in case tempfile_mkdtemp tempdir rnd st tmp_dir of
           Inl x \<Rightarrow> Inl x
         | Inr (tmp_dir, st1) \<Rightarrow>
             (case (if os_path_exists st1 name
                    then os_rename st1 name (os_path_join tmp_dir name)
                    else Inr st1) of
                Inl x \<Rightarrow> Inl x
              | Inr st2 \<Rightarrow>
                  (case dask_rm_tree st2 tmp_dir of
                     Inl x \<Rightarrow> Inl x
                   | Inr rm_task \<Rightarrow> Inr (Delayed_io_remove rm_task, st2))))"


text \<open>
  \<open>DistributedDirectoryStore\<close>. The state is the filesystem and the tasks handed to
  \<open>fire_and_forget\<close>. \<open>super_setitem\<close> stands for \<open>zarr.DirectoryStore.__setitem__\<close>.
\<close>

definition DistributedDirectoryStore_delitem ::
  "string list \<Rightarrow> string \<Rightarrow> filesys \<times> delayed list \<Rightarrow> path \<Rightarrow> path
   \<Rightarrow> pyerr + (filesys \<times> delayed list)" where
  "DistributedDirectoryStore_delitem tempdir rnd w self_path key =
     (let path = os_path_join self_path key in
      if os_path_exists (fst w) path
      then (case dask_io_remove tempdir rnd (fst w) path of
              Inl x \<Rightarrow> Inl x
            | Inr (rm_task, st') \<Rightarrow> Inr (st', snd w @ [rm_task]))
      else Inl KeyError)"

definition DistributedDirectoryStore_setitem ::
  "(filesys \<Rightarrow> path \<Rightarrow> path \<Rightarrow> 'v \<Rightarrow> pyerr + filesys) \<Rightarrow>
   string list \<Rightarrow> string \<Rightarrow> filesys \<times> delayed list \<Rightarrow> path \<Rightarrow> path \<Rightarrow> 'v
   \<Rightarrow> pyerr + (filesys \<times> delayed list)" where
  "DistributedDirectoryStore_setitem super_setitem tempdir rnd w self_path key v =
     (let w1 = (case DistributedDirectoryStore_delitem tempdir rnd w self_path key of
                  Inl KeyError \<Rightarrow> Inr w
                | Inl x \<Rightarrow> Inl x
                | Inr w' \<Rightarrow> Inr w')
      in case w1 of
           Inl x \<Rightarrow> Inl x
         | Inr w' \<Rightarrow>
             (case super_setitem (fst w') self_path key v of
                Inl x \<Rightarrow> Inl x
              | Inr st' \<Rightarrow> Inr (st', snd w')))"

section \<open>Archive export\<close>









section \<open>The shape of a task graph\<close>

text \<open>
  A directory is well formed when no two of its entries have the same name, all the
  way down. The path of a task, its dependencies, and its dependencies'
  dependencies. \<open>child_task\<close> is the removal task of an entry: \<open>dask_rm_file\<close> of a
  file, the graph \<open>dask_rm_tree\<close> builds of a subdirectory.
\<close>

fun wf_node :: "node \<Rightarrow> bool" where
  "wf_node (Dir cs) = (distinct (map fst cs) \<and> (\<forall>e \<in> set cs. wf_node (snd e)))"
| "wf_node n = True"

fun task_path :: "delayed \<Rightarrow> path" where
  "task_path (Delayed_rm_file p) = p"
| "task_path (Delayed_rm_dir p deps) = p"
| "task_path (Delayed_io_remove d) = task_path d"

fun dependencies :: "delayed \<Rightarrow> delayed list" where
  "dependencies (Delayed_rm_file p) = []"
| "dependencies (Delayed_rm_dir p deps) = deps"
| "dependencies (Delayed_io_remove d) = [d]"

fun all_dependencies :: "delayed \<Rightarrow> delayed list" where
  "all_dependencies (Delayed_rm_file p) = []"
| "all_dependencies (Delayed_rm_dir p deps) = concat (map (\<lambda>d. d # all_dependencies d) deps)"
| "all_dependencies (Delayed_io_remove d) = d # all_dependencies d"

definition child_task :: "filesys \<Rightarrow> path \<Rightarrow> string \<times> node \<Rightarrow> pyerr + delayed" where
  "child_task st d e =
     (if is_file e then Inr (Delayed_rm_file (entry_path d e))
      else dask_rm_tree st (entry_path d e))"

fun node_tasks :: "path \<Rightarrow> node \<Rightarrow> delayed list" where
  "node_tasks p (File c) = [Delayed_rm_file p]"
| "node_tasks p (Dir cs) =
     [Delayed_rm_dir p (concat (map (\<lambda>e. node_tasks (entry_path p e) (snd e)) cs))]"
| "node_tasks p Other = []"


definition tpaths :: "delayed list \<Rightarrow> path set" where
  "tpaths ts = set (map task_path (concat (map (\<lambda>d. d # all_dependencies d) ts)))"


text \<open>
  A small filesystem with a store directory holding one key, and the same filesystem
  after \<open>mkdtemp\<close>; \<open>write_file\<close> is a base store that writes the value as a file.
\<close>

definition store_fs :: filesys where
  "store_fs = \<lparr>root = Dir [(''store'', Dir [(''key'', File ''old'')]), (''tmp'', Dir [])],
               cwd = []\<rparr>"

definition store_fs_tmp :: filesys where
  "store_fs_tmp = \<lparr>root = Dir [(''store'', Dir [(''key'', File ''old'')]),
                              (''tmp'', Dir [(''tmp_nanshe_workflow_key_k3x'', Dir [])])],
               cwd = []\<rparr>"

definition write_file :: "filesys \<Rightarrow> path \<Rightarrow> path \<Rightarrow> string \<Rightarrow> pyerr + filesys" where
  "write_file st self_path key v =
     Inr (st\<lparr>root := insert_at (root st) (resolve st (os_path_join self_path key)) (File v)\<rparr>)"










section \<open>Index reordering\<close>







section \<open>Arrays\<close>

text \<open>
  An N-dimensional array is a nested list: a scalar, or a list of arrays one
  dimension lower. \<open>has_shape\<close> says that an array is rectangular of a given shape.
  \<open>concatenate\<close> is \<open>numpy.concatenate\<close> and \<open>dask.array.concatenate\<close>: the arrays
  must have the same number of dimensions, at least one, and the same extents off
  the axis; a negative axis counts from the last.
\<close>

datatype 'a nd = Scalar 'a | Arr "'a nd list"






section \<open>Selections\<close>

text \<open>
  The key of a selection is a tuple with one entry per axis: a slice, an integer, a
  string or a sequence of integers.
\<close>

datatype key =
    KSlice "int option" "int option" "int option"
  | KInt int
  | KStr string
  | KSeq "int list"

fun sequence_sum :: "('e + 'a) list \<Rightarrow> 'e + 'a list" where
  "sequence_sum [] = Inr []"
| "sequence_sum (x # xs) =
     (case x of
        Inl e \<Rightarrow> Inl e
      | Inr v \<Rightarrow> (case sequence_sum xs of Inl e \<Rightarrow> Inl e | Inr vs \<Rightarrow> Inr (v # vs)))"


definition hdf5_native ::
  "(key list \<Rightarrow> pyerr + 'r) \<Rightarrow> ('r \<Rightarrow> key list \<Rightarrow> pyerr + 'r) \<Rightarrow> key list \<Rightarrow> key list
   \<Rightarrow> pyerr + 'r" where
  "hdf5_native dataset np_getitem self_key key =
     (case dataset self_key of Inl e \<Rightarrow> Inl e | Inr a \<Rightarrow> np_getitem a key)"
























section \<open>Block grids\<close>






text \<open>
  The grid is a numpy array of objects. \<open>result[..., 0]\<close> is a view: it shares the
  buffer of \<open>result\<close> and drops the last axis, so an assignment to \<open>result2[j]\<close> is seen
  through \<open>result\<close>. An array is therefore a buffer with dimensions and strides;
  \<open>numpy.empty\<close> makes a C-contiguous one whose cells hold no block yet, and
  \<open>copy\<close> makes a C-contiguous one with a buffer of its own. An index outside the
  dimensions is an \<open>IndexError\<close>. \<open>tolist_row a j\<close> is \<open>a[j].tolist()\<close> for an index
  \<open>j\<close> of all axes but the last.
\<close>

fun c_strides :: "nat list \<Rightarrow> nat list" where
  "c_strides [] = []"
| "c_strides (n # ns) = prod_list ns # c_strides ns"

definition flat_index :: "nat list \<Rightarrow> nat list \<Rightarrow> nat" where
  "flat_index strides idx = sum_list (map (\<lambda>(s, i). s * i) (zip strides idx))"

record 'b ndarray =
  buffer :: "'b option list"
  dims :: "nat list"
  strides :: "nat list"


definition in_bounds :: "nat list \<Rightarrow> nat list \<Rightarrow> bool" where
  "in_bounds shp idx \<longleftrightarrow> length idx = length shp \<and> list_all2 (<) idx shp"












text \<open>
  For the proofs: the part of an array in given ranges of its leading axes, ranges
  that are not empty and lie in a shape, the ranges of the blocks along every axis,
  the ranges of the block at a grid position, that block, and the datasets and
  chunk shapes considered: a rectangular array with positive extents and a chunk
  shape of the same rank with positive extents.
\<close>

fun slice_nd :: "(nat \<times> nat) list \<Rightarrow> 'a nd \<Rightarrow> 'a nd" where
  "slice_nd [] a = a"
| "slice_nd ((lo, hi) # rs) (Arr xs) = Arr (map (slice_nd rs) (take (hi - lo) (drop lo xs)))"
| "slice_nd (r # rs) (Scalar x) = Scalar x"

definition valid_ranges :: "nat list \<Rightarrow> (nat \<times> nat) list \<Rightarrow> bool" where
  "valid_ranges shp rs \<longleftrightarrow>
     length rs \<le> length shp
     \<and> list_all2 (\<lambda>r n. fst r < snd r \<and> snd r \<le> n) rs (take (length rs) shp)"


definition ranges_of :: "(nat \<times> nat) list list \<Rightarrow> nat list \<Rightarrow> (nat \<times> nat) list" where
  "ranges_of Rs j = map (\<lambda>(r, k). r ! k) (zip Rs j)"



section \<open>Scoped type-cast views\<close>

text \<open>
  C10. For both backend variants and every target dtype: when the dataset can be
  opened, entering and leaving the \<open>astype\<close> scope yields a handle that is a new
  object (its reference is none of the heap before, so it is not \<open>self\<close>), whose
  dtype is the target dtype and whose filename and datasetname are those of \<open>self\<close>;
  the object \<open>self\<close>, with its dtype, shape, filename and datasetname, and every
  other object of the heap before are unchanged.
\<close>

theorem astype_view_fresh_original_unchanged:
  assumes "self < length h"
    and "backend (filename (h ! self)) (datasetname (h ! self)) = Inr (shp, dt0)"
  shows "view_ok numpy_dtype h self dt (astype_scope hdf5_astype numpy_dtype backend h self dt)
       \<and> view_ok numpy_dtype h self dt (astype_scope zarr_astype numpy_dtype backend h self dt)"
  using assms
  by (simp add: view_ok_def astype_scope_def astype_enter_def lazy_init_def astype_exit_def
      hdf5_astype_def zarr_astype_def LazyHDF5Dataset_def LazyZarrDataset_def nth_append)

theorem astype_view_fresh_original_unchanged_witness:
  "view_ok id
     [\<lparr>filename = ''a.h5'', datasetname = ''images'', shape = [2, 3], dtype = ''uint16'',
       size = 6\<rparr>] 0 ''float32''
     (astype_scope hdf5_astype id (\<lambda>fn dn. Inr ([2, 3], ''uint16''))
       [\<lparr>filename = ''a.h5'', datasetname = ''images'', shape = [2, 3], dtype = ''uint16'',
         size = 6\<rparr>] 0 ''float32'')
   \<and> view_ok id
     [\<lparr>filename = ''a.h5'', datasetname = ''images'', shape = [2, 3], dtype = ''uint16'',
       size = 6\<rparr>] 0 ''float32''
     (astype_scope zarr_astype id (\<lambda>fn dn. Inr ([2, 3], ''uint16''))
       [\<lparr>filename = ''a.h5'', datasetname = ''images'', shape = [2, 3], dtype = ''uint16'',
         size = 6\<rparr>] 0 ''float32'')"
  using astype_view_fresh_original_unchanged
    [of 0 "[\<lparr>filename = ''a.h5'', datasetname = ''images'', shape = [2, 3],
             dtype = ''uint16'', size = 6\<rparr>]"
        "\<lambda>fn dn. Inr ([2, 3], ''uint16'')" "[2, 3]" "''uint16''" id "''float32''"]
  by simp


section \<open>Deletion\<close>










lemma for_each_Inr:
  "(\<And>e. e \<in> set es \<Longrightarrow> body e = Inr (g e))
   \<Longrightarrow> for_each body es acc = Inr (acc @ concat (map g es))"
  by (induction es arbitrary: acc) simp_all

lemma stat_child:
  assumes "stat st d = Some (Dir cs)" and "distinct (map fst cs)" and "e \<in> set cs"
  shows "stat st (entry_path d e) = Some (snd e)"
proof -
  from assms(2,3) have "map_of cs (fst e) = Some (snd e)"
    by (cases e) simp
  with assms(1) show ?thesis
    by (simp add: stat_def resolve_entry_path lookup_append)
qed

lemma wf_lookup: "wf_node n \<Longrightarrow> lookup n p = Some m \<Longrightarrow> wf_node m"
proof (induction n p rule: lookup.induct)
  case (2 cs c p)
  then show ?case
    by (auto split: option.splits dest!: map_of_SomeD)
qed simp_all

lemma int_dask_rm_tree_node_tasks:
  "stat st d = Some (Dir cs) \<Longrightarrow> wf_node (Dir cs)
   \<Longrightarrow> int_dask_rm_tree st d = Inr (concat (map (\<lambda>e. node_tasks (entry_path d e) (snd e)) cs))"
proof (induction cs arbitrary: d rule: measure_induct_rule [where f = "\<lambda>cs. node_size (Dir cs)"])
  case (less cs)
  have scan: "scandir st d = Inr cs"
    using less.prems(1) by (simp add: scandir_def)
  have body: "(case (if is_dir e
                   then (case int_dask_rm_tree st (entry_path d e) of
                           Inl x \<Rightarrow> Inl x
                         | Inr sub \<Rightarrow> Inr [Delayed_rm_dir (entry_path d e) sub])
                   else Inr []) of
               Inl x \<Rightarrow> Inl x
             | Inr ds \<Rightarrow>
                 Inr ((if is_file e then [Delayed_rm_file (entry_path d e)] else []) @ ds))
        = Inr (node_tasks (entry_path d e) (snd e))" if e: "e \<in> set cs" for e
  proof (cases e)
    case (Pair name n)
    show ?thesis
    proof (cases n)
      case (File c)
      with Pair show ?thesis by simp
    next
      case Other
      with Pair show ?thesis by simp
    next
      case (Dir cs')
      have "stat st (entry_path d e) = Some (Dir cs')"
        using stat_child [OF less.prems(1) _ e] less.prems(2) Pair Dir by simp
      moreover have "wf_node (Dir cs')"
        using less.prems(2) e Pair Dir by fastforce
      moreover have "node_size (Dir cs') < node_size (Dir cs)"
        using node_size_member [OF e] Pair Dir by simp
      ultimately have "int_dask_rm_tree st (entry_path d e)
          = Inr (concat (map (\<lambda>e'. node_tasks (entry_path (entry_path d e) e') (snd e')) cs'))"
        by (rule less.IH [rotated])
      with Pair Dir show ?thesis by simp
    qed
  qed
  show ?case
    by (subst int_dask_rm_tree.simps) (simp add: scan for_each_Inr [OF body])
qed


lemma tpaths_simps:
  "tpaths [] = {}"
  "tpaths (t # ts) = insert (task_path t) (tpaths (dependencies t)) \<union> tpaths ts"
  "tpaths (a @ b) = tpaths a \<union> tpaths b"
  by (cases t; auto simp: tpaths_def)+

lemma tpaths_concat: "tpaths (concat xs) = (\<Union>x \<in> set xs. tpaths x)"
  by (induction xs) (simp_all add: tpaths_simps)

lemma lookup_Dir_Cons:
  assumes "distinct (map fst cs)"
  shows "lookup (Dir cs) (c # q) = Some m
     \<longleftrightarrow> (\<exists>e \<in> set cs. fst e = c \<and> lookup (snd e) q = Some m)"
proof -
  have "lookup (Dir cs) (c # q) = Some m
      \<longleftrightarrow> (\<exists>m'. map_of cs c = Some m' \<and> lookup m' q = Some m)"
    by (simp split: option.splits)
  also have "\<dots> \<longleftrightarrow> (\<exists>m'. (c, m') \<in> set cs \<and> lookup m' q = Some m)"
    using assms by (simp add: map_of_eq_Some_iff)
  also have "\<dots> \<longleftrightarrow> (\<exists>e \<in> set cs. fst e = c \<and> lookup (snd e) q = Some m)"
    by force
  finally show ?thesis .
qed

lemma paths_step:
  assumes d: "distinct (map fst cs)"
  shows "(\<Union>e \<in> set cs. {Abs ((p @ [fst e]) @ q) |q. \<exists>m. lookup (snd e) q = Some m \<and> m \<noteq> Other})
       = {Abs (p @ q) |q. q \<noteq> [] \<and> (\<exists>m. lookup (Dir cs) q = Some m \<and> m \<noteq> Other)}"
    (is "?L = ?R")
proof (intro set_eqI iffI)
  fix x assume "x \<in> ?L"
  then obtain e q m where 2: "e \<in> set cs" "x = Abs (p @ fst e # q)"
      "lookup (snd e) q = Some m" "m \<noteq> Other"
    by auto
  then have "lookup (Dir cs) (fst e # q) = Some m"
    using lookup_Dir_Cons [OF d] by blast
  with 2 show "x \<in> ?R" by blast
next
  fix x assume "x \<in> ?R"
  then obtain q m where x: "x = Abs (p @ q)" "q \<noteq> []" "lookup (Dir cs) q = Some m" "m \<noteq> Other"
    by blast
  then obtain c q' where Cons: "q = c # q'" by (cases q) auto
  with x obtain e where "e \<in> set cs" "fst e = c" "lookup (snd e) q' = Some m"
    using lookup_Dir_Cons [OF d] by blast
  with x Cons show "x \<in> ?L" by auto
qed

lemma node_tasks_paths_File:
  "tpaths (node_tasks (Abs p) (File v))
     = {Abs (p @ q) |q. \<exists>m. lookup (File v) q = Some m \<and> m \<noteq> Other}"
proof -
  have "\<And>q m. lookup (File v) q = Some m \<longleftrightarrow> q = [] \<and> m = File v"
    by (case_tac q) auto
  then show ?thesis by (auto simp: tpaths_simps)
qed

lemma node_tasks_paths_Other:
  "tpaths (node_tasks (Abs p) Other)
     = {Abs (p @ q) |q. \<exists>m. lookup Other q = Some m \<and> m \<noteq> Other}"
proof -
  have "\<And>q m. lookup Other q = Some m \<longleftrightarrow> q = [] \<and> m = Other"
    by (case_tac q) auto
  then show ?thesis by (auto simp: tpaths_simps)
qed

lemma node_tasks_paths:
  "wf_node n \<Longrightarrow>
   tpaths (node_tasks (Abs p) n) = {Abs (p @ q) |q. \<exists>m. lookup n q = Some m \<and> m \<noteq> Other}"
proof (induction n arbitrary: p rule: wf_node.induct)
  case (1 cs)
  have IH: "tpaths (node_tasks (Abs (p @ [fst e])) (snd e))
      = {Abs ((p @ [fst e]) @ q) |q. \<exists>m. lookup (snd e) q = Some m \<and> m \<noteq> Other}"
    if "e \<in> set cs" for e
    using 1 that by simp
  have d: "distinct (map fst cs)" using 1 by simp
  have "tpaths (node_tasks (Abs p) (Dir cs))
     = insert (Abs p) (\<Union>e \<in> set cs. tpaths (node_tasks (Abs (p @ [fst e])) (snd e)))"
    by (simp add: tpaths_simps tpaths_concat entry_path_def)
  also have "\<dots> = insert (Abs p)
      (\<Union>e \<in> set cs. {Abs ((p @ [fst e]) @ q) |q. \<exists>m. lookup (snd e) q = Some m \<and> m \<noteq> Other})"
    using IH by simp
  also have "\<dots> = insert (Abs (p @ []))
      {Abs (p @ q) |q. q \<noteq> [] \<and> (\<exists>m. lookup (Dir cs) q = Some m \<and> m \<noteq> Other)}"
    by (simp only: paths_step [OF d] append_Nil2)
  also have "\<dots> = {Abs (p @ q) |q. \<exists>m. lookup (Dir cs) q = Some m \<and> m \<noteq> Other}"
    (is "?L = ?R")
  proof (intro set_eqI iffI)
    fix x assume "x \<in> ?L"
    then have "x = Abs (p @ []) \<and> lookup (Dir cs) [] = Some (Dir cs) \<or> x \<in> ?R"
      by auto
    then show "x \<in> ?R" by blast
  next
    fix x assume "x \<in> ?R"
    then obtain q m where x: "x = Abs (p @ q)" "lookup (Dir cs) q = Some m" "m \<noteq> Other"
      by blast
    then show "x \<in> ?L" by (cases "q = []") auto
  qed
  finally show ?case .
qed (rule node_tasks_paths_File, rule node_tasks_paths_Other)

lemma children_paths:
  assumes wf: "wf_node (Dir cs)"
  shows "tpaths (concat (map (\<lambda>e. node_tasks (entry_path (Abs p) e) (snd e)) cs))
       = {Abs (p @ q) |q. q \<noteq> [] \<and> (\<exists>m. lookup (Dir cs) q = Some m \<and> m \<noteq> Other)}"
proof -
  have d: "distinct (map fst cs)" using wf by simp
  have "tpaths (concat (map (\<lambda>e. node_tasks (entry_path (Abs p) e) (snd e)) cs))
      = (\<Union>e \<in> set cs. tpaths (node_tasks (Abs (p @ [fst e])) (snd e)))"
    by (simp add: tpaths_concat entry_path_def)
  also have "\<dots> = (\<Union>e \<in> set cs.
      {Abs ((p @ [fst e]) @ q) |q. \<exists>m. lookup (snd e) q = Some m \<and> m \<noteq> Other})"
    using wf by (simp add: node_tasks_paths)
  finally show ?thesis by (simp only: paths_step [OF d])
qed

lemma abspath_entry: "os_path_abspath st (entry_path (Abs p) e) = entry_path (Abs p) e"
  by (simp add: os_path_abspath_def entry_path_def)

lemma child_tasks_exact:
  assumes st: "stat st (Abs p) = Some (Dir cs)" and wf: "wf_node (Dir cs)"
    and sub: "set es \<subseteq> set cs"
  shows "map Inr (concat (map (\<lambda>e. node_tasks (entry_path (Abs p) e) (snd e)) es))
       = map (child_task st (Abs p)) (filter (\<lambda>e. is_file e \<or> is_dir e) es)"
  using sub
proof (induction es)
  case Nil
  then show ?case by simp
next
  case (Cons e es)
  then have e: "e \<in> set cs" by simp
  have "map Inr (node_tasks (entry_path (Abs p) e) (snd e))
      = map (child_task st (Abs p)) (filter (\<lambda>e. is_file e \<or> is_dir e) [e])"
  proof (cases e)
    case (Pair name n)
    show ?thesis
    proof (cases n)
      case (Dir cs')
      have "stat st (entry_path (Abs p) e) = Some (Dir cs')"
        using stat_child [OF st _ e] wf Pair Dir by simp
      moreover have "wf_node (Dir cs')" using wf e Pair Dir by fastforce
      ultimately have "int_dask_rm_tree st (entry_path (Abs p) e)
          = Inr (concat (map (\<lambda>e'. node_tasks (entry_path (entry_path (Abs p) e) e') (snd e')) cs'))"
        by (rule int_dask_rm_tree_node_tasks)
      with Pair Dir show ?thesis
        by (simp add: child_task_def dask_rm_tree_def abspath_entry Let_def)
    qed (simp_all add: Pair child_task_def)
  qed
  with Cons show ?case by simp
qed

text \<open>
  C5. In a well-formed filesystem, for every path that is a directory, \<open>dask_rm_tree\<close>
  returns a \<open>dask_rm_dir\<close> task of that directory whose dependencies are exactly the
  removal tasks of the directory's entries that are files or directories, in listing
  order; and the paths of the tasks among its transitive dependencies are exactly the
  paths of the files and directories below it, so each of them is removed by a task
  that runs before the directory's own.
\<close>

theorem dask_rm_tree_dependencies:
  assumes wf: "wf_node (root st)" and dir: "stat st dirname = Some (Dir cs)"
  shows "\<exists>deps. dask_rm_tree st dirname = Inr (Delayed_rm_dir (os_path_abspath st dirname) deps)
      \<and> map Inr deps = map (child_task st (os_path_abspath st dirname))
                          (filter (\<lambda>e. is_file e \<or> is_dir e) cs)
      \<and> tpaths deps = {Abs (resolve st dirname @ q) |q.
                          q \<noteq> [] \<and> (\<exists>m. lookup (Dir cs) q = Some m \<and> m \<noteq> Other)}"
proof -
  let ?p = "resolve st dirname"
  let ?deps = "concat (map (\<lambda>e. node_tasks (entry_path (Abs ?p) e) (snd e)) cs)"
  have st: "stat st (Abs ?p) = Some (Dir cs)" using dir by (simp add: stat_def)
  have wfd: "wf_node (Dir cs)"
    using wf_lookup [OF wf, of "resolve st dirname" "Dir cs"] dir by (simp add: stat_def)
  have 1: "dask_rm_tree st dirname = Inr (Delayed_rm_dir (os_path_abspath st dirname) ?deps)"
    using int_dask_rm_tree_node_tasks [OF st wfd]
    by (simp add: dask_rm_tree_def os_path_abspath_def Let_def)
  have 2: "map Inr ?deps = map (child_task st (os_path_abspath st dirname))
                          (filter (\<lambda>e. is_file e \<or> is_dir e) cs)"
    using child_tasks_exact [OF st wfd, of cs] by (simp add: os_path_abspath_def)
  have 3: "tpaths ?deps = {Abs (?p @ q) |q.
                          q \<noteq> [] \<and> (\<exists>m. lookup (Dir cs) q = Some m \<and> m \<noteq> Other)}"
    using wfd by (rule children_paths)
  from 1 2 3 show ?thesis by blast
qed

theorem dask_rm_tree_dependencies_witness:
  "\<exists>deps. dask_rm_tree store_fs (Rel [''store''])
        = Inr (Delayed_rm_dir (os_path_abspath store_fs (Rel [''store''])) deps)
      \<and> map Inr deps = map (child_task store_fs (os_path_abspath store_fs (Rel [''store''])))
                          (filter (\<lambda>e. is_file e \<or> is_dir e) [(''key'', File ''old'')])
      \<and> tpaths deps = {Abs (resolve store_fs (Rel [''store'']) @ q) |q.
            q \<noteq> [] \<and> (\<exists>m. lookup (Dir [(''key'', File ''old'')]) q = Some m \<and> m \<noteq> Other)}"
proof -
  have 1: "wf_node (root store_fs)" by (simp add: store_fs_def)
  have 2: "stat store_fs (Rel [''store'']) = Some (Dir [(''key'', File ''old'')])"
    by (simp add: store_fs_def stat_def)
  from dask_rm_tree_dependencies [OF 1 2] show ?thesis .
qed

section \<open>The directory store\<close>

text \<open>
  C7. For every key whose path does not exist, \<open>__delitem__\<close> raises \<open>KeyError\<close>,
  and \<open>__setitem__\<close> swallows that \<open>KeyError\<close>: it returns what the base store's
  \<open>__setitem__\<close> returns on the unchanged filesystem, with no task submitted, so it
  succeeds whenever the base store's write does.
\<close>

theorem delitem_absent_KeyError:
  assumes "\<not> os_path_exists (fst w) (os_path_join self_path key)"
  shows "DistributedDirectoryStore_delitem tempdir rnd w self_path key = Inl KeyError
       \<and> DistributedDirectoryStore_setitem super_setitem tempdir rnd w self_path key v
           = (case super_setitem (fst w) self_path key v of
                Inl x \<Rightarrow> Inl x
              | Inr st' \<Rightarrow> Inr (st', snd w))"
  using assms
  by (simp add: DistributedDirectoryStore_delitem_def DistributedDirectoryStore_setitem_def)

theorem delitem_absent_KeyError_witness:
  "\<not> os_path_exists (fst (store_fs, [])) (os_path_join (Abs [''store'']) (Rel [''new'']))
   \<and> DistributedDirectoryStore_delitem [''tmp''] ''k3x'' (store_fs, []) (Abs [''store''])
         (Rel [''new'']) = Inl KeyError
   \<and> DistributedDirectoryStore_setitem write_file [''tmp''] ''k3x'' (store_fs, [])
         (Abs [''store'']) (Rel [''new'']) ''v''
       = Inr (\<lparr>root = Dir [(''store'', Dir [(''key'', File ''old''), (''new'', File ''v'')]),
                           (''tmp'', Dir [])], cwd = []\<rparr>, [])"
proof -
  have h: "\<not> os_path_exists (fst (store_fs, [])) (os_path_join (Abs [''store'']) (Rel [''new'']))"
    by (simp add: os_path_exists_def stat_def store_fs_def)
  from delitem_absent_KeyError [OF h, of "[''tmp'']" "''k3x''" write_file "''v''"] h
  show ?thesis
    by (simp add: write_file_def store_fs_def)
qed

text \<open>
  C4. \<open>dask_io_remove\<close> renames \<open>name\<close> to \<open>os.path.join(tmp_dir, name)\<close> after
  \<open>name = os.path.abspath(name)\<close>. Joining an absolute path onto any directory gives
  that absolute path back, so the rename is of the path onto itself. Deleting the key
  \<open>key\<close> of the store \<open>/store\<close>: the new temporary directory stays empty, the key's
  file keeps its data at its path, the submitted task removes the empty temporary
  directory only, and the file is still there when the task has run.
\<close>

theorem dask_io_remove_renames_onto_itself:
  "os_path_join tmp_dir (os_path_abspath st name) = os_path_abspath st name
   \<and> DistributedDirectoryStore_delitem [''tmp''] ''k3x'' (store_fs, []) (Abs [''store''])
        (Rel [''key''])
       = Inr (store_fs_tmp,
              [Delayed_io_remove
                 (Delayed_rm_dir (Abs [''tmp'', ''tmp_nanshe_workflow_key_k3x'']) [])])
   \<and> stat store_fs_tmp (Abs [''store'', ''key'']) = Some (File ''old'')
   \<and> compute store_fs_tmp
        (Delayed_io_remove (Delayed_rm_dir (Abs [''tmp'', ''tmp_nanshe_workflow_key_k3x'']) []))
       = Inr (None, store_fs)
   \<and> stat store_fs (Abs [''store'', ''key'']) = Some (File ''old'')"
proof (intro conjI)
  show "os_path_join tmp_dir (os_path_abspath st name) = os_path_abspath st name"
    by (simp add: os_path_abspath_def)
  show "DistributedDirectoryStore_delitem [''tmp''] ''k3x'' (store_fs, []) (Abs [''store''])
        (Rel [''key''])
       = Inr (store_fs_tmp,
              [Delayed_io_remove
                 (Delayed_rm_dir (Abs [''tmp'', ''tmp_nanshe_workflow_key_k3x'']) [])])"
    by code_simp
  show "stat store_fs_tmp (Abs [''store'', ''key'']) = Some (File ''old'')"
    by code_simp
  show "compute store_fs_tmp
        (Delayed_io_remove (Delayed_rm_dir (Abs [''tmp'', ''tmp_nanshe_workflow_key_k3x'']) []))
       = Inr (None, store_fs)"
    by code_simp
  show "stat store_fs (Abs [''store'', ''key'']) = Some (File ''old'')"
    by code_simp
qed

section \<open>The order of archive members\<close>





















section \<open>The inverse permutation\<close>








section \<open>Sequences in a selection\<close>


















lemma hdf5_native_TypeError:
  assumes "dataset self_key = Inl TypeError"
  shows "hdf5_native dataset np_getitem self_key key = Inl TypeError"
  using assms by (simp add: hdf5_native_def)







section \<open>The block round trip\<close>

text \<open>
  Positions in a C-contiguous buffer: the position of an index in bounds is below
  the size of the buffer and determines the index, also for indices of a leading
  part of the axes.
\<close>

lemma flat_index_simps [simp]:
  "flat_index ss [] = 0"
  "flat_index [] js = 0"
  "flat_index (s # ss) (i # js) = s * i + flat_index ss js"
  by (simp_all add: flat_index_def)

lemma in_bounds_simps [simp]:
  "in_bounds [] idx \<longleftrightarrow> idx = []"
  "in_bounds (n # ns) idx \<longleftrightarrow> (\<exists>i js. idx = i # js \<and> i < n \<and> in_bounds ns js)"
  by (cases idx; auto simp: in_bounds_def)+










lemma valid_ranges_Nil [simp]: "valid_ranges shp []"
  by (simp add: valid_ranges_def)

lemma valid_ranges_Cons:
  "valid_ranges shp ((lo, hi) # rs)
     \<longleftrightarrow> (\<exists>n ns. shp = n # ns \<and> lo < hi \<and> hi \<le> n \<and> valid_ranges ns rs)"
  by (cases shp) (auto simp: valid_ranges_def)

lemma sequence_sum_map_Inr_f: "sequence_sum (map (\<lambda>x. Inr (f x)) xs) = Inr (map f xs)"
  by (induction xs) simp_all















lemma valid_ranges_snoc_Cons:
  "valid_ranges (n # ns) ((lo, hi) # rs @ [r])
     \<longleftrightarrow> lo < hi \<and> hi \<le> n \<and> valid_ranges ns (rs @ [r])"
  by (simp add: valid_ranges_Cons)

lemma map_slice_nd_Nil [simp]: "map (slice_nd []) ys = ys"
  by (induction ys) simp_all





lemma ranges_of_simps [simp]:
  "ranges_of Rs [] = []"
  "ranges_of [] j = []"
  "ranges_of (r # Rs) (k # j) = r ! k # ranges_of Rs j"
  by (simp_all add: ranges_of_def)

lemma length_ranges_of: "length (ranges_of Rs j) = min (length Rs) (length j)"
  by (simp add: ranges_of_def)

















lemma length_c_strides [simp]: "length (c_strides shp) = length shp"
  by (induction shp) simp_all















end
